theory Spec2Isabelle
  imports Main
begin

section \<open>JavaScript values and the storage collaborator\<close>

text \<open>
  The rate limiter of \<^verbatim>\<open>src/worklet/rateLimiter.js\<close> keeps one record under a fixed
  key of a caller-supplied store. Numbers are JavaScript numbers holding integers
  (counters and millisecond timestamps), modelled as \<open>int\<close>; a field that may be
  \<^verbatim>\<open>null\<close> is an \<open>option\<close>.
\<close>

record RateLimitState =
  consecutiveFailures :: int
  lockoutUntil :: "int option"
  lastAttemptTime :: "int option"

text \<open>
  What a caller can hand to \<^verbatim>\<open>setStorage\<close>: any JavaScript value. An object is described
  by what the limiter can observe of it: whether it has callable \<^verbatim>\<open>get\<close> and \<^verbatim>\<open>add\<close>
  members, whether a call of each rejects, and the records it holds.
\<close>

record storage_object =
  has_get :: bool
  has_add :: bool
  get_throws :: bool
  add_throws :: bool
  cells :: "string \<Rightarrow> RateLimitState option"

datatype js_value =
    JSUndefined
  | JSNull
  | JSBoolean bool
  | JSNumber int
  | JSNaN
  | JSString string
  | JSObject storage_object

text \<open>JavaScript's ToBoolean: what \<^verbatim>\<open>!storage\<close> and \<^verbatim>\<open>!this.storage\<close> negate.\<close>

fun truthy :: "js_value \<Rightarrow> bool" where
  "truthy JSUndefined = False"
| "truthy JSNull = False"
| "truthy (JSBoolean b) = b"
| "truthy (JSNumber n) = (n \<noteq> 0)"
| "truthy JSNaN = False"
| "truthy (JSString s) = (s \<noteq> [])"
| "truthy (JSObject obj) = True"

text \<open>
  Every throw of the source is a value: \<open>Error msg\<close> for \<^verbatim>\<open>throw new Error(msg)\<close>,
  \<open>TypeError\<close> for calling a member that is not a function, \<open>Rejected\<close> for the store's
  own failure.
\<close>

datatype error = Error string | TypeError | Rejected

text \<open>\<^verbatim>\<open>await storage.get(key)\<close> and \<^verbatim>\<open>await storage.add(key, value)\<close>.\<close>

fun storage_get :: "js_value \<Rightarrow> string \<Rightarrow> error + RateLimitState option" where
  "storage_get (JSObject obj) k =
     (if \<not> has_get obj then Inl TypeError
      else if get_throws obj then Inl Rejected
      else Inr (cells obj k))"
| "storage_get v k = Inl TypeError"

fun storage_add :: "js_value \<Rightarrow> string \<Rightarrow> RateLimitState \<Rightarrow> error + js_value" where
  "storage_add (JSObject obj) k d =
     (if \<not> has_add obj then Inl TypeError
      else if add_throws obj then Inl Rejected
      else Inr (JSObject (obj\<lparr>cells := (cells obj)(k := Some d)\<rparr>)))"
| "storage_add v k d = Inl TypeError"

section \<open>The rate limiter\<close>

definition MAX_ATTEMPTS :: int where
  "MAX_ATTEMPTS = 5"

definition MAX_BACKOFF_MINUTES :: int where
  "MAX_BACKOFF_MINUTES = 24 * 60"

definition COOLDOWN_PERIOD_MS :: int where
  "COOLDOWN_PERIOD_MS = MAX_BACKOFF_MINUTES * 60 * 1000"

definition STORAGE_KEY :: string where
  "STORAGE_KEY = ''rateLimitData''"

definition DEFAULT_DATA :: RateLimitState where
  "DEFAULT_DATA = \<lparr>consecutiveFailures = 0, lockoutUntil = None, lastAttemptTime = None\<rparr>"

record RateLimiter =
  storage :: js_value

definition new_RateLimiter :: RateLimiter where
  "new_RateLimiter = \<lparr>storage = JSNull\<rparr>"

definition setStorage :: "js_value \<Rightarrow> RateLimiter \<Rightarrow> error + RateLimiter" where
  "setStorage s rl =
     (if \<not> truthy s then Inl (Error ''Storage must have get and add methods'')
      else Inr (rl\<lparr>storage := s\<rparr>))"

text \<open>
  \<^verbatim>\<open>Math.pow(2, exponent)\<close> is called with \<open>exponent \<ge> 1\<close> only, the branch below the
  threshold having returned. On integers it is the exact power up to \<open>2 ^ 1023\<close> and
  \<^verbatim>\<open>Infinity\<close> beyond, and \<^verbatim>\<open>Math.min\<close> with 1440 gives 1440 in both cases, as the
  exact power does.
\<close>

definition calculateBackoffDuration :: "int \<Rightarrow> int" where
  "calculateBackoffDuration failures =
     (if failures < MAX_ATTEMPTS then 0
      else
        let exponent = failures - MAX_ATTEMPTS + 1;
            backoffMinutes = 2 ^ nat exponent;
            cappedMinutes = min backoffMinutes MAX_BACKOFF_MINUTES
        in cappedMinutes * 60 * 1000)"

text \<open>
  \<^verbatim>\<open>Date.now()\<close> is the number of milliseconds elapsed since the epoch: the reading
  \<open>now\<close> is a \<open>nat\<close>, entering the arithmetic as \<open>int now\<close>, while a stored timestamp
  is any integer. An operation reads the clock several times; the model gives every read
  within one operation the same value \<open>now\<close>, as the specification does and as the test
  suite's mocked clock does.
\<close>

definition getData :: "nat \<Rightarrow> RateLimiter \<Rightarrow> error + RateLimitState" where
  "getData now rl =
     (if \<not> truthy (storage rl) then Inl (Error ''Storage not initialized.'')
      else
        (case storage_get (storage rl) STORAGE_KEY of
           Inr (Some d) \<Rightarrow> Inr d
         | Inr None \<Rightarrow> Inr DEFAULT_DATA
         | Inl e \<Rightarrow>
             (let backoffMs = calculateBackoffDuration 1
              in Inr \<lparr>consecutiveFailures = 1,
                      lockoutUntil = Some (int now + backoffMs),
                      lastAttemptTime = Some (int now)\<rparr>)))"

fun isLockoutExpired :: "nat \<Rightarrow> int option \<Rightarrow> bool" where
  "isLockoutExpired now None = True"
| "isLockoutExpired now (Some until) = (int now \<ge> until)"

fun shouldGrantFreshStart :: "nat \<Rightarrow> int option \<Rightarrow> bool" where
  "shouldGrantFreshStart now None = False"
| "shouldGrantFreshStart now (Some t) = (int now - t \<ge> COOLDOWN_PERIOD_MS)"

definition reset :: "RateLimiter \<Rightarrow> error + RateLimiter" where
  "reset rl =
     (case storage_add (storage rl) STORAGE_KEY DEFAULT_DATA of
        Inl e \<Rightarrow> Inl e
      | Inr s \<Rightarrow> Inr (rl\<lparr>storage := s\<rparr>))"

record Status =
  isLocked :: bool
  lockoutRemainingMs :: int
  remainingAttempts :: int

text \<open>
  In \<^verbatim>\<open>getStatus\<close> the remaining time is guarded by the truthiness of
  \<^verbatim>\<open>data.lockoutUntil\<close>, not by a comparison with \<^verbatim>\<open>null\<close>: a timestamp of 0 counts as
  absent there.
\<close>

definition getStatus :: "nat \<Rightarrow> RateLimiter \<Rightarrow> error + (Status \<times> RateLimiter)" where
  "getStatus now rl =
     (case getData now rl of
        Inl e \<Rightarrow> Inl e
      | Inr d \<Rightarrow>
          if shouldGrantFreshStart now (lastAttemptTime d) then
            (case reset rl of
               Inl e \<Rightarrow> Inl e
             | Inr rl' \<Rightarrow>
                 Inr (\<lparr>isLocked = False, lockoutRemainingMs = 0,
                       remainingAttempts = MAX_ATTEMPTS\<rparr>, rl'))
          else if lockoutUntil d \<noteq> None \<and> isLockoutExpired now (lockoutUntil d) then
            Inr (\<lparr>isLocked = False, lockoutRemainingMs = 0, remainingAttempts = 0\<rparr>, rl)
          else
            let locked = (lockoutUntil d \<noteq> None);
                remainingMs =
                  (case lockoutUntil d of
                     None \<Rightarrow> 0
                   | Some until \<Rightarrow> if until \<noteq> 0 then max 0 (until - int now) else 0);
                attempts =
                  (if locked then 0 else max 0 (MAX_ATTEMPTS - consecutiveFailures d))
            in Inr (\<lparr>isLocked = locked, lockoutRemainingMs = remainingMs,
                     remainingAttempts = attempts\<rparr>, rl))"

definition getRemainingAttempts :: "nat \<Rightarrow> RateLimiter \<Rightarrow> error + int" where
  "getRemainingAttempts now rl =
     (case getData now rl of
        Inl e \<Rightarrow> Inl e
      | Inr d \<Rightarrow>
          if shouldGrantFreshStart now (lastAttemptTime d) then Inr MAX_ATTEMPTS
          else if lockoutUntil d \<noteq> None \<and> \<not> isLockoutExpired now (lockoutUntil d) then Inr 0
          else Inr (max 0 (MAX_ATTEMPTS - consecutiveFailures d)))"

text \<open>
  \<^verbatim>\<open>recordFailure\<close> updates the record it read field by field; \<open>d1\<close> to \<open>d4\<close> are the
  record after each block of assignments.
\<close>

definition recordFailure :: "nat \<Rightarrow> RateLimiter \<Rightarrow> error + RateLimiter" where
  "recordFailure now rl =
     (case getData now rl of
        Inl e \<Rightarrow> Inl (Error ''Rate limiter unavailable - denying attempt'')
      | Inr d \<Rightarrow>
          let d1 = (if shouldGrantFreshStart now (lastAttemptTime d)
                    then d\<lparr>consecutiveFailures := 0, lockoutUntil := None\<rparr> else d);
              d2 = (if lockoutUntil d1 \<noteq> None \<and> isLockoutExpired now (lockoutUntil d1)
                    then d1\<lparr>lockoutUntil := None\<rparr> else d1);
              d3 = d2\<lparr>consecutiveFailures := consecutiveFailures d2 + 1,
                      lastAttemptTime := Some (int now)\<rparr>;
              backoffMs = calculateBackoffDuration (consecutiveFailures d3);
              d4 = (if backoffMs > 0 then d3\<lparr>lockoutUntil := Some (int now + backoffMs)\<rparr>
                    else d3\<lparr>lockoutUntil := None\<rparr>)
          in (case storage_add (storage rl) STORAGE_KEY d4 of
                Inl e \<Rightarrow> Inl (Error ''Failed to record attempt - denying access'')
              | Inr s \<Rightarrow> Inr (rl\<lparr>storage := s\<rparr>)))"

section \<open>The failure record as the specification words it\<close>

text \<open>
  The specification describes \<^verbatim>\<open>recordFailure\<close> as four steps on the stored record:
  the cooldown reset, the clearing of an expired lockout, the count of the attempt and
  the new lockout. Each step is a function of its own here, worded as the specification
  words it, to be compared with what the source writes back.
\<close>

definition spec_cooldown_applies :: "nat \<Rightarrow> RateLimitState \<Rightarrow> bool" where
  "spec_cooldown_applies now s =
     (case lastAttemptTime s of
        None \<Rightarrow> False
      | Some t \<Rightarrow> int now - t \<ge> 24 * 60 * 60 * 1000)"

definition spec_cooldown_reset :: "nat \<Rightarrow> RateLimitState \<Rightarrow> RateLimitState" where
  "spec_cooldown_reset now s =
     (if spec_cooldown_applies now s
      then s\<lparr>consecutiveFailures := 0, lockoutUntil := None\<rparr> else s)"

definition spec_clear_expired :: "nat \<Rightarrow> RateLimitState \<Rightarrow> RateLimitState" where
  "spec_clear_expired now s =
     (case lockoutUntil s of
        None \<Rightarrow> s
      | Some until \<Rightarrow> if until \<le> int now then s\<lparr>lockoutUntil := None\<rparr> else s)"

definition spec_count_attempt :: "nat \<Rightarrow> RateLimitState \<Rightarrow> RateLimitState" where
  "spec_count_attempt now s =
     s\<lparr>consecutiveFailures := consecutiveFailures s + 1, lastAttemptTime := Some (int now)\<rparr>"

definition spec_recompute_lockout :: "nat \<Rightarrow> RateLimitState \<Rightarrow> RateLimitState" where
  "spec_recompute_lockout now s =
     s\<lparr>lockoutUntil :=
         (if calculateBackoffDuration (consecutiveFailures s) > 0
          then Some (int now + calculateBackoffDuration (consecutiveFailures s))
          else None)\<rparr>"

definition spec_recordFailure :: "nat \<Rightarrow> RateLimitState \<Rightarrow> RateLimitState" where
  "spec_recordFailure now s =
     spec_recompute_lockout now
       (spec_count_attempt now (spec_clear_expired now (spec_cooldown_reset now s)))"

section \<open>Stores to state the properties with\<close>

text \<open>The store \<open>obj\<close> after a successful \<^verbatim>\<open>add\<close> of \<open>d\<close> under the limiter's key.\<close>

definition stored :: "storage_object \<Rightarrow> RateLimitState \<Rightarrow> js_value" where
  "stored obj d = JSObject (obj\<lparr>cells := (cells obj)(STORAGE_KEY := Some d)\<rparr>)"

text \<open>A value whose \<^verbatim>\<open>add\<close>, respectively \<^verbatim>\<open>get\<close>, cannot complete: a storage fault.\<close>

fun add_fails :: "js_value \<Rightarrow> bool" where
  "add_fails (JSObject obj) = (\<not> has_add obj \<or> add_throws obj)"
| "add_fails v = True"

fun get_fails :: "js_value \<Rightarrow> bool" where
  "get_fails (JSObject obj) = (\<not> has_get obj \<or> get_throws obj)"
| "get_fails v = True"

text \<open>
  A store with both members, as the test suite mocks it: it holds \<open>r\<close> under the
  limiter's key, and its reads and writes fail as the two flags say.
\<close>

definition a_store :: "bool \<Rightarrow> bool \<Rightarrow> RateLimitState option \<Rightarrow> storage_object" where
  "a_store read_fault write_fault r =
     \<lparr>has_get = True, has_add = True, get_throws = read_fault, add_throws = write_fault,
      cells = (\<lambda>k. if k = STORAGE_KEY then r else None)\<rparr>"

definition limiter_holding :: "bool \<Rightarrow> bool \<Rightarrow> RateLimitState option \<Rightarrow> RateLimiter" where
  "limiter_holding read_fault write_fault r =
     \<lparr>storage = JSObject (a_store read_fault write_fault r)\<rparr>"

text \<open>Records of the test suite: a lockout running past a 24 hour pause, and one running.\<close>

definition locked_out :: RateLimitState where
  "locked_out = \<lparr>consecutiveFailures = 7, lockoutUntil = Some 2100000,
                   lastAttemptTime = Some (- 84405000)\<rparr>"

definition active_lockout :: RateLimitState where
  "active_lockout = \<lparr>consecutiveFailures = 5, lockoutUntil = Some 1060000,
                       lastAttemptTime = Some 1000000\<rparr>"

definition expired_lockout :: RateLimitState where
  "expired_lockout = \<lparr>consecutiveFailures = 5, lockoutUntil = Some 1950000,
                        lastAttemptTime = Some 1940000\<rparr>"

text \<open>A record with an expired lockout and fewer than five failures.\<close>

definition stale_lockout :: RateLimitState where
  "stale_lockout = \<lparr>consecutiveFailures = 2, lockoutUntil = Some 100, lastAttemptTime = Some 100\<rparr>"

section \<open>The master password manager\<close>

text \<open>
  \<^verbatim>\<open>src/worklet/masterPasswordManager.js\<close> and the module \<^verbatim>\<open>appDeps\<close> it calls are
  known through their test suite and the specification only. The manager is modelled from
  the specification's description of its four operations, with the names, the record
  shapes and the messages the test suite shows.
\<close>

text \<open>
  Modelled from the spec: the records the manager persists and returns are JavaScript
  objects with string keys, whose values (base64 strings) the manager never inspects;
  \<open>'v\<close> is the type of these values.
\<close>

type_synonym 'v js_object = "string \<Rightarrow> 'v option"

text \<open>
  Modelled from the spec: the cryptographic collaborators of the manager (its section on
  external interfaces). The randomness of a call that draws a fresh salt, nonce or key is
  its first argument.
\<close>

record 'v crypto =
  hashPassword :: "nat \<Rightarrow> 'v \<Rightarrow> 'v \<times> 'v"
  getDecryptionKey :: "'v \<Rightarrow> 'v \<Rightarrow> 'v"
  encryptVaultKeyWithHashedPassword :: "nat \<Rightarrow> 'v \<Rightarrow> 'v \<times> 'v"
  encryptVaultWithKey :: "nat \<Rightarrow> 'v \<Rightarrow> 'v \<Rightarrow> 'v \<times> 'v"
  decryptVaultKey :: "'v \<Rightarrow> 'v \<Rightarrow> 'v \<Rightarrow> 'v option"
  constantTimeHashCompare :: "'v \<Rightarrow> 'v \<Rightarrow> bool"

text \<open>
  Modelled from the spec: what the manager's calls into \<^verbatim>\<open>appDeps\<close> read and change. The
  two stores keep their records across sessions; \<open>vaultsInitialized\<close> says whether this
  process holds an open vault, \<open>vaultsKey\<close> is the key it was opened with, and
  \<open>recordFailureCalls\<close> is the failure counter as the manager drives it: the number of
  failures it has recorded through \<^verbatim>\<open>rateLimitRecordFailure\<close>.
\<close>

record 'v world =
  vaults :: "string \<Rightarrow> 'v js_object option"
  vaultsInitialized :: bool
  vaultsKey :: "'v option"
  encryption :: "string \<Rightarrow> 'v js_object option"
  encryptionInitialized :: bool
  recordFailureCalls :: nat

text \<open>
  Modelled from the spec: what an operation of the manager returns, the verification
  material or \<^verbatim>\<open>{success: true}\<close>.
\<close>

datatype 'v reply = Material "'v js_object" | Success

text \<open>
  Modelled from the spec: the encryption-store projection \<^verbatim>\<open>masterPassword\<close>, the object
  \<^verbatim>\<open>{ciphertext, nonce, salt}\<close>.
\<close>

definition masterPassword_object :: "'v \<Rightarrow> 'v \<Rightarrow> 'v \<Rightarrow> 'v js_object" where
  "masterPassword_object ct n sa =
     [''ciphertext'' \<mapsto> ct, ''nonce'' \<mapsto> n, ''salt'' \<mapsto> sa]"

text \<open>
  Modelled from the spec: the vault-store projection \<^verbatim>\<open>masterEncryption\<close>, the object
  \<^verbatim>\<open>{ciphertext, nonce, salt, hashedPassword}\<close>; the manager returns the same object as
  the verification material.
\<close>

definition masterEncryption_object :: "'v \<Rightarrow> 'v \<Rightarrow> 'v \<Rightarrow> 'v \<Rightarrow> 'v js_object" where
  "masterEncryption_object ct n sa h =
     [''ciphertext'' \<mapsto> ct, ''nonce'' \<mapsto> n, ''salt'' \<mapsto> sa, ''hashedPassword'' \<mapsto> h]"

text \<open>Modelled from the spec: a first start, with empty stores and no open vault.\<close>

definition new_world :: "'v world" where
  "new_world =
     \<lparr>vaults = (\<lambda>k. None), vaultsInitialized = False, vaultsKey = None,
      encryption = (\<lambda>k. None), encryptionInitialized = False, recordFailureCalls = 0\<rparr>"

text \<open>
  Modelled from the spec: the end of a session (\<^verbatim>\<open>closeVaultsInstance\<close>,
  \<^verbatim>\<open>encryptionClose\<close>, or a restart of the process); the stores keep their records.
\<close>

definition close_session :: "'v world \<Rightarrow> 'v world" where
  "close_session w =
     w\<lparr>vaultsInitialized := False, vaultsKey := None, encryptionInitialized := False\<rparr>"

text \<open>
  Modelled from the spec: \<^verbatim>\<open>appDeps.rateLimitRecordFailure\<close>, the manager's call into the
  rate limiter's \<^verbatim>\<open>recordFailure\<close>, which counts one more failure; the model counts
  the calls.
\<close>

definition rateLimitRecordFailure :: "'v world \<Rightarrow> 'v world" where
  "rateLimitRecordFailure w = w\<lparr>recordFailureCalls := recordFailureCalls w + 1\<rparr>"

text \<open>
  Modelled from the spec: \<^verbatim>\<open>appDeps.vaultsGet\<close>, reading the vault store, which answers
  only while a vault is open.
\<close>

definition vaultsGet :: "'v world \<Rightarrow> string \<Rightarrow> 'v js_object option" where
  "vaultsGet w name = (if vaultsInitialized w then vaults w name else None)"

text \<open>
  Modelled from the spec: the two writes that end a creation and a rotation,
  \<^verbatim>\<open>vaultsAdd('masterEncryption', ...)\<close> and \<^verbatim>\<open>encryptionAdd('masterPassword', ...)\<close>, with
  the objects the test suite expects.
\<close>

definition persist_projections :: "'v \<Rightarrow> 'v \<Rightarrow> 'v \<Rightarrow> 'v \<Rightarrow> 'v world \<Rightarrow> 'v world" where
  "persist_projections ct n sa h w =
     w\<lparr>vaults := (vaults w)(''masterEncryption'' \<mapsto> masterEncryption_object ct n sa h),
       encryption := (encryption w)(''masterPassword'' \<mapsto> masterPassword_object ct n sa)\<rparr>"

text \<open>
  Modelled from the spec: \<^verbatim>\<open>createMasterPassword\<close>. It initializes the encryption
  subsystem, hashes the password, has a new vault key generated and wrapped under the
  hash, unwraps it, opens the vault store with it and persists both projections.
\<close>

definition createMasterPassword ::
  "'v crypto \<Rightarrow> nat \<Rightarrow> 'v \<Rightarrow> 'v world \<Rightarrow> (error + 'v reply) \<times> 'v world" where
  "createMasterPassword c e passwordBase64 w =
     (let w1 = w\<lparr>encryptionInitialized := True\<rparr>;
          (h, sa) = hashPassword c e passwordBase64;
          (ct, n) = encryptVaultKeyWithHashedPassword c e h;
          key = decryptVaultKey c ct n h;
          w2 = w1\<lparr>vaultsInitialized := True, vaultsKey := key\<rparr>;
          w3 = persist_projections ct n sa h w2
      in (Inr (Material (masterEncryption_object ct n sa h)), w3))"

text \<open>
  Modelled from the spec: \<^verbatim>\<open>initWithPassword\<close>, with its two paths. With a vault open
  it compares the derived hash with the stored one and attempts no decryption; with no
  vault open it unwraps the stored vault key with the derived hash. On either path a
  password that does not match is an authentication failure: the operation records one
  failure in the rate limiter and fails with the message of its path. The specification
  leaves a missing record or field open; the model fails there without effect.
\<close>

definition initWithPassword ::
  "'v crypto \<Rightarrow> 'v \<Rightarrow> 'v world \<Rightarrow> (error + 'v reply) \<times> 'v world" where
  "initWithPassword c passwordBase64 w =
     (if vaultsInitialized w then
        (case vaultsGet w ''masterEncryption'' of
           None \<Rightarrow> (Inl TypeError, w)
         | Some me \<Rightarrow>
             (case (me ''salt'', me ''hashedPassword'') of
                (Some sa, Some h) \<Rightarrow>
                  if constantTimeHashCompare c h (getDecryptionKey c sa passwordBase64)
                  then (Inr Success, w)
                  else (Inl (Error ''Provided credentials do not match existing master encryption''),
                        rateLimitRecordFailure w)
              | _ \<Rightarrow> (Inl TypeError, w)))
      else
        (case encryption w ''masterPassword'' of
           None \<Rightarrow> (Inl TypeError, w)
         | Some mp \<Rightarrow>
             (case (mp ''ciphertext'', mp ''nonce'', mp ''salt'') of
                (Some ct, Some n, Some sa) \<Rightarrow>
                  (case decryptVaultKey c ct n (getDecryptionKey c sa passwordBase64) of
                     None \<Rightarrow>
                       (Inl (Error ''Error decrypting vault key''), rateLimitRecordFailure w)
                   | Some key \<Rightarrow>
                       (Inr Success, w\<lparr>vaultsInitialized := True, vaultsKey := Some key\<rparr>))
              | _ \<Rightarrow> (Inl TypeError, w))))"

text \<open>
  Modelled from the spec: \<^verbatim>\<open>updateMasterPassword\<close>. A mismatch of the current password
  is an authentication failure: one failure is recorded in the rate limiter, the
  operation fails with its message and no further state is touched. Otherwise the vault
  key is unwrapped with the verified hash, the new password is hashed, the same key is
  wrapped under the new hash and both projections are persisted. An unwrap that yields
  nothing at step 2 is, as the specification says of every decryption without result, an
  authentication failure; its message is the one of the other operations.
\<close>

definition updateMasterPassword ::
  "'v crypto \<Rightarrow> nat \<Rightarrow> 'v \<Rightarrow> 'v \<Rightarrow> 'v world \<Rightarrow> (error + 'v reply) \<times> 'v world" where
  "updateMasterPassword c e currentPassword newPassword w =
     (case vaultsGet w ''masterEncryption'' of
        None \<Rightarrow> (Inl TypeError, w)
      | Some me \<Rightarrow>
          (case (me ''salt'', me ''hashedPassword'') of
             (Some sa, Some h) \<Rightarrow>
               (let derived = getDecryptionKey c sa currentPassword in
                if \<not> constantTimeHashCompare c h derived
                then (Inl (Error ''Invalid password''), rateLimitRecordFailure w)
                else
                  (case (me ''ciphertext'', me ''nonce'') of
                     (Some ct, Some n) \<Rightarrow>
                       (case decryptVaultKey c ct n derived of
                          None \<Rightarrow>
                            (Inl (Error ''Error decrypting vault key''), rateLimitRecordFailure w)
                        | Some key \<Rightarrow>
                            (let (h', sa') = hashPassword c e newPassword;
                                 (ct', n') = encryptVaultWithKey c e h' key
                             in (Inr (Material (masterEncryption_object ct' n' sa' h')),
                                 persist_projections ct' n' sa' h' w)))
                   | _ \<Rightarrow> (Inl TypeError, w)))
           | _ \<Rightarrow> (Inl TypeError, w)))"

text \<open>
  Modelled from the spec: \<^verbatim>\<open>initWithCredentials\<close>. The three fields are checked before
  any other work; then the encryption subsystem is initialized and the vault key
  unwrapped with the hash supplied. The rate limiter is not called.
\<close>

definition initWithCredentials ::
  "'v crypto \<Rightarrow> 'v js_object \<Rightarrow> 'v world \<Rightarrow> (error + 'v reply) \<times> 'v world" where
  "initWithCredentials c args w =
     (case (args ''ciphertext'', args ''nonce'', args ''hashedPassword'') of
        (Some ct, Some n, Some h) \<Rightarrow>
          (let w1 = w\<lparr>encryptionInitialized := True\<rparr> in
           case decryptVaultKey c ct n h of
             None \<Rightarrow> (Inl (Error ''Error decrypting vault key''), w1)
           | Some key \<Rightarrow> (Inr Success, w1\<lparr>vaultsInitialized := True, vaultsKey := Some key\<rparr>))
      | _ \<Rightarrow> (Inl (Error ''Missing required parameters''), w))"

section \<open>Properties of the manager's state\<close>

text \<open>
  The two projections agree: both absent, or both present with the same ciphertext,
  nonce and salt, the encryption-store object having these three fields and no
  \<^verbatim>\<open>hashedPassword\<close>.
\<close>

definition projections_agree :: "'v world \<Rightarrow> bool" where
  "projections_agree w =
     (case (vaults w ''masterEncryption'', encryption w ''masterPassword'') of
        (None, None) \<Rightarrow> True
      | (Some me, Some mp) \<Rightarrow>
          mp ''ciphertext'' = me ''ciphertext'' \<and> mp ''nonce'' = me ''nonce''
          \<and> mp ''salt'' = me ''salt'' \<and> mp ''hashedPassword'' = None
          \<and> dom mp = {''ciphertext'', ''nonce'', ''salt''}
      | _ \<Rightarrow> False)"

text \<open>The projections are the two objects of one write.\<close>

definition in_step :: "'v world \<Rightarrow> bool" where
  "in_step w \<longleftrightarrow>
     (vaults w ''masterEncryption'' = None \<and> encryption w ''masterPassword'' = None)
   \<or> (\<exists>ct n sa h.
         vaults w ''masterEncryption'' = Some (masterEncryption_object ct n sa h)
       \<and> encryption w ''masterPassword'' = Some (masterPassword_object ct n sa))"

text \<open>
  The states the manager can be in: from a first start, by any of its four operations
  with any arguments, and by ending a session.
\<close>

inductive reachable :: "'v crypto \<Rightarrow> 'v world \<Rightarrow> bool" for c :: "'v crypto" where
  start: "reachable c new_world"
| create: "reachable c w \<Longrightarrow> reachable c (snd (createMasterPassword c e p w))"
| update: "reachable c w \<Longrightarrow> reachable c (snd (updateMasterPassword c e cur new w))"
| init_password: "reachable c w \<Longrightarrow> reachable c (snd (initWithPassword c p w))"
| init_credentials: "reachable c w \<Longrightarrow> reachable c (snd (initWithCredentials c args w))"
| close: "reachable c w \<Longrightarrow> reachable c (close_session w)"

text \<open>
  Modelled from the spec: the contracts of the cryptographic collaborators, as far as
  the round trip relies on them. The hash that \<^verbatim>\<open>hashPassword\<close> returns is the one
  \<^verbatim>\<open>getDecryptionKey\<close> derives from the salt it returns and the password; a derived hash
  determines its salt and its password; the comparison decides equality; a wrapped key
  is unwrapped by the hash it was wrapped under and by no other. Every call draws its
  salt, its nonce and its ciphertext afresh: two calls with different randomness return
  different ones.
\<close>

definition contracts :: "'v crypto \<Rightarrow> bool" where
  "contracts c \<longleftrightarrow>
     (\<forall>e p. getDecryptionKey c (snd (hashPassword c e p)) p = fst (hashPassword c e p))
   \<and> (\<forall>sa p sa' p'. getDecryptionKey c sa p = getDecryptionKey c sa' p' \<longrightarrow> sa = sa' \<and> p = p')
   \<and> (\<forall>a b. constantTimeHashCompare c a b = (a = b))
   \<and> (\<forall>e h. decryptVaultKey c (fst (encryptVaultKeyWithHashedPassword c e h))
                (snd (encryptVaultKeyWithHashedPassword c e h)) h \<noteq> None)
   \<and> (\<forall>e h h'. h' \<noteq> h \<longrightarrow>
          decryptVaultKey c (fst (encryptVaultKeyWithHashedPassword c e h))
            (snd (encryptVaultKeyWithHashedPassword c e h)) h' = None)
   \<and> (\<forall>e h k. decryptVaultKey c (fst (encryptVaultWithKey c e h k))
                (snd (encryptVaultWithKey c e h k)) h = Some k)
   \<and> (\<forall>e h k h'. h' \<noteq> h \<longrightarrow>
          decryptVaultKey c (fst (encryptVaultWithKey c e h k))
            (snd (encryptVaultWithKey c e h k)) h' = None)
   \<and> (\<forall>e e' p p'. e \<noteq> e' \<longrightarrow> snd (hashPassword c e p) \<noteq> snd (hashPassword c e' p'))
   \<and> (\<forall>e e' h h' k. e \<noteq> e' \<longrightarrow>
          fst (encryptVaultWithKey c e h k) \<noteq> fst (encryptVaultKeyWithHashedPassword c e' h')
        \<and> snd (encryptVaultWithKey c e h k) \<noteq> snd (encryptVaultKeyWithHashedPassword c e' h'))
   \<and> (\<forall>e e' h h' k k'. e \<noteq> e' \<longrightarrow>
          fst (encryptVaultWithKey c e h k) \<noteq> fst (encryptVaultWithKey c e' h' k')
        \<and> snd (encryptVaultWithKey c e h k) \<noteq> snd (encryptVaultWithKey c e' h' k'))"

text \<open>
  The stored record wraps \<open>key\<close> under the hash of password \<open>p\<close>, and both projections
  hold it.
\<close>

definition sealed :: "'v crypto \<Rightarrow> 'v world \<Rightarrow> 'v \<Rightarrow> 'v \<Rightarrow> bool" where
  "sealed c w p key \<longleftrightarrow>
     (\<exists>ct n sa h.
        vaults w ''masterEncryption'' = Some (masterEncryption_object ct n sa h)
      \<and> encryption w ''masterPassword'' = Some (masterPassword_object ct n sa)
      \<and> getDecryptionKey c sa p = h
      \<and> decryptVaultKey c ct n h = Some key
      \<and> (\<forall>h'. h' \<noteq> h \<longrightarrow> decryptVaultKey c ct n h' = None))"

text \<open>
  Collaborators that meet the contracts: hashes and wrapped keys as terms, so that a
  hash determines its salt and password and a wrapped key the hash it is under.
\<close>

datatype sym = Atom string | Salt nat | Nonce nat | Key nat | Kdf sym sym | Wrap sym sym sym

definition ideal_crypto :: "sym crypto" where
  "ideal_crypto =
     \<lparr>hashPassword = (\<lambda>e p. (Kdf (Salt e) p, Salt e)),
      getDecryptionKey = (\<lambda>sa p. Kdf sa p),
      encryptVaultKeyWithHashedPassword = (\<lambda>e h. (Wrap h (Nonce e) (Key e), Nonce e)),
      encryptVaultWithKey = (\<lambda>e h k. (Wrap h (Nonce e) k, Nonce e)),
      decryptVaultKey =
        (\<lambda>ct n h. case ct of
                     Wrap h' n' k \<Rightarrow> if h' = h \<and> n' = n then Some k else None
                   | _ \<Rightarrow> None),
      constantTimeHashCompare = (\<lambda>a b. a = b)\<rparr>"

text \<open>The state after a first start and the creation of a master password.\<close>

definition world_after_create :: "sym world" where
  "world_after_create = snd (createMasterPassword ideal_crypto 1 (Atom ''correct'') new_world)"

section \<open>Backoff\<close>

lemma backoff_below_threshold: "n < 5 \<Longrightarrow> calculateBackoffDuration n = 0"
  by (simp add: calculateBackoffDuration_def MAX_ATTEMPTS_def)

lemma backoff_at_threshold:
  "5 \<le> n \<Longrightarrow> calculateBackoffDuration n = min (2 ^ nat (n - 4)) 1440 * 60000"
  by (simp add: calculateBackoffDuration_def MAX_ATTEMPTS_def MAX_BACKOFF_MINUTES_def
      Let_def algebra_simps)

lemma backoff_positive_iff: "0 < calculateBackoffDuration n \<longleftrightarrow> 5 \<le> n"
proof (cases "n < 5")
  case True
  then show ?thesis by (simp add: backoff_below_threshold)
next
  case False
  then have "5 \<le> n" by simp
  moreover have "(0::int) < min (2 ^ nat (n - 4)) 1440" by simp
  ultimately show ?thesis by (simp add: backoff_at_threshold)
qed

lemma backoff_saturated:
  assumes "15 \<le> n"
  shows "calculateBackoffDuration n = 86400000"
proof -
  have "(11::nat) \<le> nat (n - 4)" using assms by simp
  then have "(2::int) ^ 11 \<le> 2 ^ nat (n - 4)"
    by (rule power_increasing) simp
  then have "min ((2::int) ^ nat (n - 4)) 1440 = 1440" by simp
  with assms show ?thesis by (simp add: backoff_at_threshold)
qed

lemma backoff_unsaturated:
  assumes "n < 15"
  shows "calculateBackoffDuration n < 86400000"
proof (cases "n < 5")
  case True
  then show ?thesis by (simp add: backoff_below_threshold)
next
  case False
  then have ge: "5 \<le> n" by simp
  have "nat (n - 4) \<le> 10" using assms by simp
  then have "(2::int) ^ nat (n - 4) \<le> 2 ^ 10"
    by (rule power_increasing) simp
  then have "min ((2::int) ^ nat (n - 4)) 1440 \<le> 1024" by simp
  then show ?thesis using ge by (simp add: backoff_at_threshold)
qed

lemma backoff_min_ms:
  "5 \<le> n \<Longrightarrow>
   calculateBackoffDuration n = min (2 ^ nat (n - 4) * (60 * 1000)) (24 * 60 * 60 * 1000)"
  by (simp add: backoff_at_threshold min_def)

lemma backoff_first_lockouts:
  "calculateBackoffDuration 5 = 120000"
  "calculateBackoffDuration 6 = 240000"
  "calculateBackoffDuration 7 = 480000"
  "calculateBackoffDuration 8 = 960000"
  "calculateBackoffDuration 9 = 1920000"
  by (simp_all add: backoff_at_threshold)

text \<open>
  C2. For every failure count \<open>n\<close>, \<open>calculateBackoffDuration n\<close> is 0 below 5 and, from 5
  on, the smaller of \<open>2 ^ (n - 4)\<close> minutes and 24 hours, in milliseconds: 2, 4, 8, 16
  and 32 minutes at 5, 6, 7, 8 and 9, and 24 hours from 15 on.
\<close>

theorem calculateBackoffDuration_spec:
  "calculateBackoffDuration n =
     (if n < 5 then 0 else min (2 ^ nat (n - 4) * (60 * 1000)) (24 * 60 * 60 * 1000))
   \<and> calculateBackoffDuration 5 = 2 * 60 * 1000
   \<and> calculateBackoffDuration 6 = 4 * 60 * 1000
   \<and> calculateBackoffDuration 7 = 8 * 60 * 1000
   \<and> calculateBackoffDuration 8 = 16 * 60 * 1000
   \<and> calculateBackoffDuration 9 = 32 * 60 * 1000
   \<and> (if 15 \<le> n then calculateBackoffDuration n = 24 * 60 * 60 * 1000
       else calculateBackoffDuration n < 24 * 60 * 60 * 1000)"
proof -
  have general: "calculateBackoffDuration n =
      (if n < 5 then 0 else min (2 ^ nat (n - 4) * (60 * 1000)) (24 * 60 * 60 * 1000))"
    using backoff_below_threshold [of n] backoff_min_ms [of n] by (cases "n < 5") simp_all
  have cap: "if 15 \<le> n then calculateBackoffDuration n = 24 * 60 * 60 * 1000
      else calculateBackoffDuration n < 24 * 60 * 60 * 1000"
    using backoff_saturated [of n] backoff_unsaturated [of n] by (cases "15 \<le> n") simp_all
  from general cap show ?thesis
    by (simp only: backoff_first_lockouts) simp
qed

theorem calculateBackoffDuration_spec_witness:
  "calculateBackoffDuration 10 = 64 * 60 * 1000
   \<and> calculateBackoffDuration 1000 = 24 * 60 * 60 * 1000
   \<and> calculateBackoffDuration 4 = 0"
  using calculateBackoffDuration_spec [of 10] calculateBackoffDuration_spec [of 1000]
    calculateBackoffDuration_spec [of 4]
  by simp

section \<open>Reading and writing the failure record\<close>

lemma cooldown_ms: "COOLDOWN_PERIOD_MS = 86400000"
  by (simp add: COOLDOWN_PERIOD_MS_def MAX_BACKOFF_MINUTES_def)

lemma fresh_start_spec:
  "shouldGrantFreshStart now (lastAttemptTime s) = spec_cooldown_applies now s"
  by (cases "lastAttemptTime s") (simp_all add: spec_cooldown_applies_def cooldown_ms)

lemma get_fails_iff: "get_fails v \<longleftrightarrow> (\<exists>e. storage_get v k = Inl e)"
  by (cases v) auto

lemma add_fails_iff: "add_fails v \<longleftrightarrow> (\<exists>e. storage_add v k d = Inl e)"
  by (cases v) auto

lemma getData_read:
  assumes "storage rl = JSObject obj" "has_get obj" "\<not> get_throws obj"
  shows "getData now rl = Inr (case cells obj STORAGE_KEY of Some d \<Rightarrow> d | None \<Rightarrow> DEFAULT_DATA)"
  using assms by (simp add: getData_def split: option.splits)

lemma limiter_holding_simps:
  "storage (limiter_holding rfault wfault r) = JSObject (a_store rfault wfault r)"
  "has_get (a_store rfault wfault r)" "has_add (a_store rfault wfault r)"
  "get_throws (a_store rfault wfault r) = rfault" "add_throws (a_store rfault wfault r) = wfault"
  "cells (a_store rfault wfault r) STORAGE_KEY = r"
  by (simp_all add: limiter_holding_def a_store_def)

text \<open>
  Whatever \<^verbatim>\<open>getData\<close> returned, the record that \<^verbatim>\<open>recordFailure\<close> hands to \<^verbatim>\<open>add\<close> is
  the one the four steps of the specification give.
\<close>

lemma recordFailure_written:
  assumes "getData now rl = Inr s"
  shows "recordFailure now rl =
     (case storage_add (storage rl) STORAGE_KEY (spec_recordFailure now s) of
        Inl e \<Rightarrow> Inl (Error ''Failed to record attempt - denying access'')
      | Inr v \<Rightarrow> Inr (rl\<lparr>storage := v\<rparr>))"
proof -
  have eq: "(let d1 = (if shouldGrantFreshStart now (lastAttemptTime s)
                    then s\<lparr>consecutiveFailures := 0, lockoutUntil := None\<rparr> else s);
              d2 = (if lockoutUntil d1 \<noteq> None \<and> isLockoutExpired now (lockoutUntil d1)
                    then d1\<lparr>lockoutUntil := None\<rparr> else d1);
              d3 = d2\<lparr>consecutiveFailures := consecutiveFailures d2 + 1,
                      lastAttemptTime := Some (int now)\<rparr>;
              backoffMs = calculateBackoffDuration (consecutiveFailures d3)
          in (if backoffMs > 0 then d3\<lparr>lockoutUntil := Some (int now + backoffMs)\<rparr>
                    else d3\<lparr>lockoutUntil := None\<rparr>)) = spec_recordFailure now s"
    by (cases "lockoutUntil s")
      (simp_all add: Let_def spec_recordFailure_def spec_recompute_lockout_def
        spec_count_attempt_def spec_clear_expired_def spec_cooldown_reset_def fresh_start_spec)
  show ?thesis
    unfolding recordFailure_def using assms eq by (simp add: Let_def)
qed

text \<open>
  The four steps in closed form: the second step never shows in the result, the lockout
  being recomputed from the new count.
\<close>

lemma spec_recordFailure_closed:
  "spec_recordFailure now s =
     (let n = (if spec_cooldown_applies now s then 0 else consecutiveFailures s) + 1
      in \<lparr>consecutiveFailures = n,
          lockoutUntil = (if 5 \<le> n then Some (int now + calculateBackoffDuration n) else None),
          lastAttemptTime = Some (int now)\<rparr>)"
  by (cases "lockoutUntil s")
    (simp_all add: Let_def spec_recordFailure_def spec_recompute_lockout_def
        spec_count_attempt_def spec_clear_expired_def spec_cooldown_reset_def backoff_positive_iff)

text \<open>
  A lockout that is still running is not the timestamp 0, the clock being at or after
  the epoch: where \<^verbatim>\<open>getStatus\<close> computes the remaining time, the truthiness of
  \<^verbatim>\<open>data.lockoutUntil\<close> and its comparison with \<^verbatim>\<open>null\<close> agree.
\<close>

lemma running_lockout_truthy: "\<not> isLockoutExpired now (Some until) \<Longrightarrow> until \<noteq> 0"
  by auto

text \<open>A record that \<^verbatim>\<open>recordFailure\<close> writes holds a lockout exactly from five failures on.\<close>

lemma recordFailure_lockout_iff:
  "lockoutUntil (spec_recordFailure now s) \<noteq> None \<longleftrightarrow>
   5 \<le> consecutiveFailures (spec_recordFailure now s)"
  by (simp add: spec_recordFailure_closed Let_def)

text \<open>
  C1. When the store returns the record \<open>s\<close> and accepts the write, \<^verbatim>\<open>recordFailure\<close>
  writes back the record obtained from \<open>s\<close> by the four steps: the reset of the count and
  the lockout when the 24 hour cooldown applies, the clearing of an expired lockout with
  the count kept, the count raised by one with \<open>lastAttemptTime\<close> set to the current time,
  and the lockout set to the current time plus the backoff of the new count when that is
  positive, to \<^verbatim>\<open>null\<close> otherwise.
\<close>

theorem recordFailure_persists:
  assumes "storage rl = JSObject obj" "has_get obj" "\<not> get_throws obj"
      and "cells obj STORAGE_KEY = Some s"
      and "has_add obj" "\<not> add_throws obj"
  shows "recordFailure now rl =
           Inr (rl\<lparr>storage := stored obj
             (spec_recompute_lockout now
               (spec_count_attempt now (spec_clear_expired now (spec_cooldown_reset now s))))\<rparr>)"
proof -
  have "getData now rl = Inr s"
    using assms by (simp add: getData_read)
  then have "recordFailure now rl = Inr (rl\<lparr>storage := stored obj (spec_recordFailure now s)\<rparr>)"
    using assms by (simp add: recordFailure_written stored_def)
  then show ?thesis by (simp only: spec_recordFailure_def)
qed

theorem recordFailure_persists_witness:
  "recordFailure 2000000 (limiter_holding False False (Some expired_lockout)) =
     Inr \<lparr>storage = stored (a_store False False (Some expired_lockout))
           \<lparr>consecutiveFailures = 6, lockoutUntil = Some 2240000,
            lastAttemptTime = Some 2000000\<rparr>\<rparr>"
proof -
  have "spec_recordFailure 2000000 expired_lockout =
      \<lparr>consecutiveFailures = 6, lockoutUntil = Some 2240000, lastAttemptTime = Some 2000000\<rparr>"
    by (simp add: spec_recordFailure_closed spec_cooldown_applies_def expired_lockout_def
        backoff_first_lockouts)
  then show ?thesis
    using recordFailure_persists [of "limiter_holding False False (Some expired_lockout)"
        "a_store False False (Some expired_lockout)" expired_lockout 2000000]
    by (simp add: limiter_holding_simps spec_recordFailure_def limiter_holding_def)
qed


section \<open>The cooldown\<close>

text \<open>
  C3. For a stored record whose \<open>lastAttemptTime\<close> is not \<^verbatim>\<open>null\<close> and lies 24 hours or
  more before the current time, on a store that reads and writes: \<^verbatim>\<open>getStatus\<close> reports
  unlocked with no remaining lockout and 5 attempts and persists the default record,
  \<^verbatim>\<open>getRemainingAttempts\<close> returns 5, and \<^verbatim>\<open>recordFailure\<close> persists a count of 1 with no
  lockout, whatever lockout the record holds; each of the three does what it does on the
  limiter whose record has been reset. A \<open>lastAttemptTime\<close> of \<^verbatim>\<open>null\<close> grants no fresh
  start.
\<close>

theorem cooldown_fresh_start:
  assumes "storage rl = JSObject obj" "has_get obj" "\<not> get_throws obj"
      and "cells obj STORAGE_KEY = Some s"
      and "has_add obj" "\<not> add_throws obj"
      and "lastAttemptTime s = Some t" "int now - t \<ge> 24 * 60 * 60 * 1000"
  shows "getStatus now rl =
           Inr (\<lparr>isLocked = False, lockoutRemainingMs = 0, remainingAttempts = 5\<rparr>,
                rl\<lparr>storage := stored obj DEFAULT_DATA\<rparr>)
       \<and> getRemainingAttempts now rl = Inr 5
       \<and> recordFailure now rl =
           Inr (rl\<lparr>storage := stored obj
                  \<lparr>consecutiveFailures = 1, lockoutUntil = None,
                   lastAttemptTime = Some (int now)\<rparr>\<rparr>)
       \<and> getStatus now rl = getStatus now (rl\<lparr>storage := stored obj DEFAULT_DATA\<rparr>)
       \<and> getRemainingAttempts now rl =
           getRemainingAttempts now (rl\<lparr>storage := stored obj DEFAULT_DATA\<rparr>)
       \<and> recordFailure now rl = recordFailure now (rl\<lparr>storage := stored obj DEFAULT_DATA\<rparr>)
       \<and> \<not> shouldGrantFreshStart now None"
proof -
  have data: "getData now rl = Inr s"
    using assms by (simp add: getData_read)
  have fresh: "shouldGrantFreshStart now (lastAttemptTime s)"
    using assms by (simp add: cooldown_ms)
  have rst: "reset rl = Inr (rl\<lparr>storage := stored obj DEFAULT_DATA\<rparr>)"
    using assms by (simp add: reset_def stored_def)
  have data0: "getData now (rl\<lparr>storage := stored obj DEFAULT_DATA\<rparr>) = Inr DEFAULT_DATA"
    using assms by (simp add: getData_def stored_def)
  have st: "getStatus now rl =
           Inr (\<lparr>isLocked = False, lockoutRemainingMs = 0, remainingAttempts = 5\<rparr>,
                rl\<lparr>storage := stored obj DEFAULT_DATA\<rparr>)"
    using data fresh rst by (simp add: getStatus_def MAX_ATTEMPTS_def)
  have st0: "getStatus now (rl\<lparr>storage := stored obj DEFAULT_DATA\<rparr>) =
           Inr (\<lparr>isLocked = False, lockoutRemainingMs = 0, remainingAttempts = 5\<rparr>,
                rl\<lparr>storage := stored obj DEFAULT_DATA\<rparr>)"
    using data0 by (simp add: getStatus_def MAX_ATTEMPTS_def DEFAULT_DATA_def)
  have ra: "getRemainingAttempts now rl = Inr 5"
    using data fresh by (simp add: getRemainingAttempts_def MAX_ATTEMPTS_def)
  have ra0: "getRemainingAttempts now (rl\<lparr>storage := stored obj DEFAULT_DATA\<rparr>) = Inr 5"
    using data0 by (simp add: getRemainingAttempts_def MAX_ATTEMPTS_def DEFAULT_DATA_def)
  have next1: "spec_recordFailure now s =
      \<lparr>consecutiveFailures = 1, lockoutUntil = None, lastAttemptTime = Some (int now)\<rparr>"
    using fresh by (simp add: spec_recordFailure_closed fresh_start_spec)
  have next0: "spec_recordFailure now DEFAULT_DATA =
      \<lparr>consecutiveFailures = 1, lockoutUntil = None, lastAttemptTime = Some (int now)\<rparr>"
    by (simp add: spec_recordFailure_closed spec_cooldown_applies_def DEFAULT_DATA_def)
  have rf: "recordFailure now rl =
           Inr (rl\<lparr>storage := stored obj
                  \<lparr>consecutiveFailures = 1, lockoutUntil = None,
                   lastAttemptTime = Some (int now)\<rparr>\<rparr>)"
    using data assms next1 by (simp add: recordFailure_written stored_def)
  have rf0: "recordFailure now (rl\<lparr>storage := stored obj DEFAULT_DATA\<rparr>) =
           Inr (rl\<lparr>storage := stored obj
                  \<lparr>consecutiveFailures = 1, lockoutUntil = None,
                   lastAttemptTime = Some (int now)\<rparr>\<rparr>)"
    using data0 assms next0 by (simp add: recordFailure_written stored_def)
  show ?thesis
    using st st0 ra ra0 rf rf0 by simp
qed

theorem cooldown_fresh_start_witness:
  "getStatus 2000000 (limiter_holding False False (Some locked_out)) =
     Inr (\<lparr>isLocked = False, lockoutRemainingMs = 0, remainingAttempts = 5\<rparr>,
          \<lparr>storage = stored (a_store False False (Some locked_out)) DEFAULT_DATA\<rparr>)
   \<and> getRemainingAttempts 2000000 (limiter_holding False False (Some locked_out)) = Inr 5
   \<and> recordFailure 2000000 (limiter_holding False False (Some locked_out)) =
     Inr \<lparr>storage = stored (a_store False False (Some locked_out))
           \<lparr>consecutiveFailures = 1, lockoutUntil = None, lastAttemptTime = Some 2000000\<rparr>\<rparr>"
  using cooldown_fresh_start [of "limiter_holding False False (Some locked_out)"
      "a_store False False (Some locked_out)" locked_out "- 84405000" 2000000]
  by (simp add: limiter_holding_simps) (simp add: locked_out_def limiter_holding_def)

section \<open>Status without a cooldown\<close>

text \<open>
  What \<^verbatim>\<open>getStatus\<close> and \<^verbatim>\<open>getRemainingAttempts\<close> return for a stored record with no
  cooldown fresh start pending, by the lockout it holds. With no lockout and with a
  running lockout the two give the same attempts figure. For an expired lockout
  \<^verbatim>\<open>getStatus\<close> has a branch of its own, which reports 0 attempts;
  \<^verbatim>\<open>getRemainingAttempts\<close> has no such branch and falls through to
  \<open>max 0 (5 - consecutiveFailures)\<close>.
\<close>

lemma status_without_cooldown:
  assumes "storage rl = JSObject obj" "has_get obj" "\<not> get_throws obj"
      and "cells obj STORAGE_KEY = Some s"
      and "\<not> shouldGrantFreshStart now (lastAttemptTime s)"
  shows "case lockoutUntil s of
           None \<Rightarrow>
             getStatus now rl =
               Inr (\<lparr>isLocked = False, lockoutRemainingMs = 0,
                     remainingAttempts = max 0 (5 - consecutiveFailures s)\<rparr>, rl)
             \<and> getRemainingAttempts now rl = Inr (max 0 (5 - consecutiveFailures s))
         | Some until \<Rightarrow>
             if until \<le> int now then
               getStatus now rl =
                 Inr (\<lparr>isLocked = False, lockoutRemainingMs = 0, remainingAttempts = 0\<rparr>, rl)
               \<and> getRemainingAttempts now rl = Inr (max 0 (5 - consecutiveFailures s))
               \<and> ((getRemainingAttempts now rl = Inr 0) = (5 \<le> consecutiveFailures s))
             else
               getStatus now rl =
                 Inr (\<lparr>isLocked = True, lockoutRemainingMs = max 0 (until - int now),
                       remainingAttempts = 0\<rparr>, rl)
               \<and> getRemainingAttempts now rl = Inr 0"
proof -
  have data: "getData now rl = Inr s"
    using assms by (simp add: getData_read)
  show ?thesis
  proof (cases "lockoutUntil s")
    case None
    then show ?thesis
      using data assms(5) by (simp add: getStatus_def getRemainingAttempts_def MAX_ATTEMPTS_def)
  next
    case (Some until)
    show ?thesis
    proof (cases "until \<le> int now")
      case True
      then show ?thesis
        using data assms(5) Some
        by (simp add: getStatus_def getRemainingAttempts_def MAX_ATTEMPTS_def max_def)
    next
      case False
      then have "until \<noteq> 0" by simp
      with False show ?thesis
        using data assms(5) Some
        by (simp add: getStatus_def getRemainingAttempts_def MAX_ATTEMPTS_def)
    qed
  qed
qed

text \<open>
  On the records the limiter writes itself, where a lockout goes with five failures or
  more (\<open>recordFailure_lockout_iff\<close>), the missing branch does not show: the two
  functions give the same attempts figure.
\<close>

lemma attempts_agree_on_counted_lockouts:
  assumes "storage rl = JSObject obj" "has_get obj" "\<not> get_throws obj"
      and "cells obj STORAGE_KEY = Some s"
      and "\<not> shouldGrantFreshStart now (lastAttemptTime s)"
      and "lockoutUntil s = None \<or> 5 \<le> consecutiveFailures s"
  shows "\<exists>st. getStatus now rl = Inr (st, rl)
            \<and> getRemainingAttempts now rl = Inr (remainingAttempts st)"
proof (cases "lockoutUntil s")
  case None
  with status_without_cooldown [OF assms(1-5)] show ?thesis by simp
next
  case (Some until)
  with assms(6) have five: "5 \<le> consecutiveFailures s" by simp
  show ?thesis
  proof (cases "until \<le> int now")
    case True
    with status_without_cooldown [OF assms(1-5)] Some five show ?thesis by simp
  next
    case False
    with status_without_cooldown [OF assms(1-5)] Some show ?thesis by simp
  qed
qed

text \<open>
  C4. For a record with no cooldown fresh start pending, \<^verbatim>\<open>getRemainingAttempts\<close> is to
  return the attempts figure of \<^verbatim>\<open>getStatus\<close>, which is 0 for an expired lockout. The
  code does not: it lacks the expired-lockout branch of \<^verbatim>\<open>getStatus\<close>. After a failing
  read at time 1000000 both work on the record \<^verbatim>\<open>getData\<close> makes up, one failure with a
  lockout that ends at 1000000: \<^verbatim>\<open>getStatus\<close> reports 0 attempts and
  \<^verbatim>\<open>getRemainingAttempts\<close> returns 4. For the stored record with 2 failures and a lockout
  that ended at 100, at time 200, \<^verbatim>\<open>getStatus\<close> reports 0 attempts and
  \<^verbatim>\<open>getRemainingAttempts\<close> returns 3.
\<close>

theorem remaining_attempts_diverge:
  "getStatus 1000000 (limiter_holding True False (Some active_lockout)) =
     Inr (\<lparr>isLocked = False, lockoutRemainingMs = 0, remainingAttempts = 0\<rparr>,
          limiter_holding True False (Some active_lockout))
   \<and> getRemainingAttempts 1000000 (limiter_holding True False (Some active_lockout)) = Inr 4
   \<and> getStatus 200 (limiter_holding False False (Some stale_lockout)) =
     Inr (\<lparr>isLocked = False, lockoutRemainingMs = 0, remainingAttempts = 0\<rparr>,
          limiter_holding False False (Some stale_lockout))
   \<and> getRemainingAttempts 200 (limiter_holding False False (Some stale_lockout)) = Inr 3"
proof -
  have fault: "getData 1000000 (limiter_holding True False (Some active_lockout)) =
      Inr \<lparr>consecutiveFailures = 1, lockoutUntil = Some 1000000, lastAttemptTime = Some 1000000\<rparr>"
    by (simp add: getData_def limiter_holding_simps backoff_below_threshold)
  have stale: "getData 200 (limiter_holding False False (Some stale_lockout)) = Inr stale_lockout"
    by (simp add: getData_read [of _ "a_store False False (Some stale_lockout)"]
        limiter_holding_simps)
  have a: "getStatus 1000000 (limiter_holding True False (Some active_lockout)) =
     Inr (\<lparr>isLocked = False, lockoutRemainingMs = 0, remainingAttempts = 0\<rparr>,
          limiter_holding True False (Some active_lockout))"
    using fault by (simp add: getStatus_def cooldown_ms)
  have b: "getRemainingAttempts 1000000 (limiter_holding True False (Some active_lockout)) = Inr 4"
    using fault by (simp add: getRemainingAttempts_def cooldown_ms MAX_ATTEMPTS_def)
  have c: "getStatus 200 (limiter_holding False False (Some stale_lockout)) =
     Inr (\<lparr>isLocked = False, lockoutRemainingMs = 0, remainingAttempts = 0\<rparr>,
          limiter_holding False False (Some stale_lockout))"
    using stale by (simp add: getStatus_def stale_lockout_def cooldown_ms)
  have d: "getRemainingAttempts 200 (limiter_holding False False (Some stale_lockout)) = Inr 3"
    using stale by (simp add: getRemainingAttempts_def stale_lockout_def cooldown_ms
        MAX_ATTEMPTS_def)
  from a b c d show ?thesis by simp
qed

section \<open>Storage faults\<close>

text \<open>
  C5, as the claim reads, fails when the read and the write both fail, the case the test
  suite sets up: \<^verbatim>\<open>getData\<close> absorbs the read fault, and the denial thrown is the one of
  the failed write, not the one of an unavailable limiter.
\<close>

theorem read_and_write_fault_counterexample:
  "recordFailure 1000000 (limiter_holding True True None) =
     Inl (Error ''Failed to record attempt - denying access'')
   \<and> recordFailure 1000000 (limiter_holding True True None) \<noteq>
     Inl (Error ''Rate limiter unavailable - denying attempt'')"
proof -
  have "getData 1000000 (limiter_holding True True None) =
      Inr \<lparr>consecutiveFailures = 1, lockoutUntil = Some 1000000, lastAttemptTime = Some 1000000\<rparr>"
    by (simp add: getData_def limiter_holding_simps backoff_below_threshold)
  then have "recordFailure 1000000 (limiter_holding True True None) =
     Inl (Error ''Failed to record attempt - denying access'')"
    by (simp add: recordFailure_written limiter_holding_simps)
  then show ?thesis by simp
qed

text \<open>
  C5, amended. With no storage bound \<^verbatim>\<open>recordFailure\<close> throws the denial of an unavailable
  limiter, and it throws that denial in no other case. With a storage bound whose write
  fails it throws the denial of the failed record, whether the read failed or not. So
  whenever the write cannot complete, \<^verbatim>\<open>recordFailure\<close> does not return normally.
\<close>

theorem recordFailure_denials:
  "(\<not> truthy (storage rl) \<longrightarrow>
      recordFailure now rl = Inl (Error ''Rate limiter unavailable - denying attempt''))
   \<and> (truthy (storage rl) \<and> add_fails (storage rl) \<longrightarrow>
      recordFailure now rl = Inl (Error ''Failed to record attempt - denying access''))
   \<and> (recordFailure now rl = Inl (Error ''Rate limiter unavailable - denying attempt'')
        \<longleftrightarrow> \<not> truthy (storage rl))
   \<and> (add_fails (storage rl) \<longrightarrow> (\<exists>e. recordFailure now rl = Inl e))"
proof -
  have unbound: "recordFailure now rl = Inl (Error ''Rate limiter unavailable - denying attempt'')"
    if "\<not> truthy (storage rl)"
    using that by (simp add: recordFailure_def getData_def)
  have bound: "\<exists>d. getData now rl = Inr d" if "truthy (storage rl)"
    using that by (simp add: getData_def split: sum.splits option.splits)
  have wfault: "recordFailure now rl = Inl (Error ''Failed to record attempt - denying access'')"
    if "truthy (storage rl)" "add_fails (storage rl)"
  proof -
    from bound that obtain d where d: "getData now rl = Inr d" by blast
    from that(2) obtain e where
      "storage_add (storage rl) STORAGE_KEY (spec_recordFailure now d) = Inl e"
      using add_fails_iff by blast
    with d show ?thesis by (simp add: recordFailure_written)
  qed
  have never: "recordFailure now rl \<noteq> Inl (Error ''Rate limiter unavailable - denying attempt'')"
    if "truthy (storage rl)"
  proof -
    from bound that obtain d where d: "getData now rl = Inr d" by blast
    then show ?thesis by (simp add: recordFailure_written split: sum.splits)
  qed
  show ?thesis using unbound wfault never by blast
qed

theorem recordFailure_denials_witness:
  "recordFailure 1000000 new_RateLimiter =
     Inl (Error ''Rate limiter unavailable - denying attempt'')
   \<and> recordFailure 1000000 (limiter_holding False True (Some active_lockout)) =
     Inl (Error ''Failed to record attempt - denying access'')"
  using recordFailure_denials [of new_RateLimiter 1000000]
    recordFailure_denials [of "limiter_holding False True (Some active_lockout)" 1000000]
  by (simp add: new_RateLimiter_def limiter_holding_simps)

text \<open>
  After a read fault alone, \<^verbatim>\<open>recordFailure\<close> goes on from the record \<^verbatim>\<open>getData\<close> made up
  and writes a count of 2 over whatever the store held.
\<close>

lemma recordFailure_after_read_fault:
  assumes "storage rl = JSObject obj" "get_fails (storage rl)" "has_add obj" "\<not> add_throws obj"
  shows "recordFailure now rl =
     Inr (rl\<lparr>storage := stored obj
        \<lparr>consecutiveFailures = 2, lockoutUntil = None, lastAttemptTime = Some (int now)\<rparr>\<rparr>)"
proof -
  from assms(2) obtain e where "storage_get (storage rl) STORAGE_KEY = Inl e"
    using get_fails_iff by blast
  then have "getData now rl = Inr \<lparr>consecutiveFailures = 1, lockoutUntil = Some (int now),
      lastAttemptTime = Some (int now)\<rparr>"
    using assms(1) by (simp add: getData_def backoff_below_threshold)
  then show ?thesis
    using assms by (simp add: recordFailure_written stored_def spec_recordFailure_closed
        spec_cooldown_applies_def)
qed

text \<open>
  C6. With a storage bound whose read fails, \<^verbatim>\<open>getData\<close> returns the record with one
  failure, \<open>lockoutUntil = now + calculateBackoffDuration 1\<close>, which is \<open>now\<close> and so already
  expired, and \<open>lastAttemptTime = now\<close>; and \<^verbatim>\<open>getStatus\<close> returns unlocked with nothing
  remaining and 0 attempts, writing nothing. When the read succeeds and finds no record,
  \<^verbatim>\<open>getData\<close> returns the default record.
\<close>

theorem getData_fail_safe:
  assumes "truthy (storage rl)"
  shows "(get_fails (storage rl) \<longrightarrow>
           getData now rl =
             Inr \<lparr>consecutiveFailures = 1,
                  lockoutUntil = Some (int now + calculateBackoffDuration 1),
                  lastAttemptTime = Some (int now)\<rparr>
           \<and> int now + calculateBackoffDuration 1 = int now
           \<and> isLockoutExpired now (Some (int now + calculateBackoffDuration 1))
           \<and> getStatus now rl =
               Inr (\<lparr>isLocked = False, lockoutRemainingMs = 0, remainingAttempts = 0\<rparr>, rl))
       \<and> (storage_get (storage rl) STORAGE_KEY = Inr None \<longrightarrow>
           getData now rl =
             Inr \<lparr>consecutiveFailures = 0, lockoutUntil = None, lastAttemptTime = None\<rparr>)"
proof -
  have b1: "calculateBackoffDuration 1 = 0"
    by (simp add: backoff_below_threshold)
  have fault: "getData now rl =
             Inr \<lparr>consecutiveFailures = 1,
                  lockoutUntil = Some (int now + calculateBackoffDuration 1),
                  lastAttemptTime = Some (int now)\<rparr>" if "get_fails (storage rl)"
  proof -
    from that obtain e where "storage_get (storage rl) STORAGE_KEY = Inl e"
      using get_fails_iff by blast
    with assms show ?thesis by (simp add: getData_def)
  qed
  have status: "getStatus now rl =
      Inr (\<lparr>isLocked = False, lockoutRemainingMs = 0, remainingAttempts = 0\<rparr>, rl)"
    if "get_fails (storage rl)"
    using fault [OF that] by (simp add: getStatus_def b1 cooldown_ms)
  have empty: "getData now rl =
      Inr \<lparr>consecutiveFailures = 0, lockoutUntil = None, lastAttemptTime = None\<rparr>"
    if "storage_get (storage rl) STORAGE_KEY = Inr None"
    using that assms by (simp add: getData_def DEFAULT_DATA_def)
  show ?thesis using fault status empty b1 by simp
qed

theorem getData_fail_safe_witness:
  "getData 1000000 (limiter_holding True False (Some active_lockout)) =
     Inr \<lparr>consecutiveFailures = 1, lockoutUntil = Some 1000000, lastAttemptTime = Some 1000000\<rparr>
   \<and> getStatus 1000000 (limiter_holding True False (Some active_lockout)) =
     Inr (\<lparr>isLocked = False, lockoutRemainingMs = 0, remainingAttempts = 0\<rparr>,
          limiter_holding True False (Some active_lockout))
   \<and> getData 1000000 (limiter_holding False False None) =
     Inr \<lparr>consecutiveFailures = 0, lockoutUntil = None, lastAttemptTime = None\<rparr>"
  using getData_fail_safe [of "limiter_holding True False (Some active_lockout)" 1000000]
    getData_fail_safe [of "limiter_holding False False None" 1000000]
  by (simp add: limiter_holding_simps)

section \<open>Binding the storage\<close>

text \<open>
  C10. \<^verbatim>\<open>setStorage\<close> throws exactly for a falsy argument, that is \<^verbatim>\<open>undefined\<close>,
  \<^verbatim>\<open>null\<close>, \<^verbatim>\<open>false\<close>, 0, \<^verbatim>\<open>NaN\<close> or the empty string; every other argument is bound as
  the storage as it is, an object with neither \<^verbatim>\<open>get\<close> nor \<^verbatim>\<open>add\<close> included, although the
  message of the error names the two members.
\<close>

theorem setStorage_binding:
  "((\<exists>e. setStorage s rl = Inl e) \<longleftrightarrow> \<not> truthy s)
   \<and> (\<not> truthy s \<longleftrightarrow>
        s \<in> {JSUndefined, JSNull, JSBoolean False, JSNumber 0, JSNaN, JSString []})
   \<and> setStorage s rl =
        (if truthy s then Inr (rl\<lparr>storage := s\<rparr>)
         else Inl (Error ''Storage must have get and add methods''))
   \<and> setStorage (JSObject (obj\<lparr>has_get := False, has_add := False\<rparr>)) rl =
        Inr (rl\<lparr>storage := JSObject (obj\<lparr>has_get := False, has_add := False\<rparr>)\<rparr>)"
proof -
  have falsy: "\<not> truthy s \<longleftrightarrow>
      s \<in> {JSUndefined, JSNull, JSBoolean False, JSNumber 0, JSNaN, JSString []}"
    by (cases s) auto
  show ?thesis
    using falsy by (simp add: setStorage_def)
qed

theorem setStorage_binding_witness:
  "setStorage JSNull new_RateLimiter = Inl (Error ''Storage must have get and add methods'')
   \<and> setStorage (JSObject ((a_store False False None)\<lparr>has_get := False, has_add := False\<rparr>))
       new_RateLimiter =
     Inr (new_RateLimiter
       \<lparr>storage := JSObject ((a_store False False None)\<lparr>has_get := False, has_add := False\<rparr>)\<rparr>)"
  using setStorage_binding [of JSNull new_RateLimiter "a_store False False None"]
  by simp


section \<open>The operations of the manager, case by case\<close>

lemma obj_fields:
  "masterPassword_object ct n sa ''ciphertext'' = Some ct"
  "masterPassword_object ct n sa ''nonce'' = Some n"
  "masterPassword_object ct n sa ''salt'' = Some sa"
  "masterPassword_object ct n sa ''hashedPassword'' = None"
  "masterEncryption_object ct n sa h ''ciphertext'' = Some ct"
  "masterEncryption_object ct n sa h ''nonce'' = Some n"
  "masterEncryption_object ct n sa h ''salt'' = Some sa"
  "masterEncryption_object ct n sa h ''hashedPassword'' = Some h"
  by (simp_all add: masterPassword_object_def masterEncryption_object_def)

lemma dom_masterPassword_object:
  "dom (masterPassword_object ct n sa) = {''ciphertext'', ''nonce'', ''salt''}"
  unfolding masterPassword_object_def by (simp only: dom_fun_upd dom_empty option.simps) auto


lemma persist_stores:
  "vaults (persist_projections ct n sa h w) ''masterEncryption''
     = Some (masterEncryption_object ct n sa h)"
  "encryption (persist_projections ct n sa h w) ''masterPassword''
     = Some (masterPassword_object ct n sa)"
  "vaultsInitialized (persist_projections ct n sa h w) = vaultsInitialized w"
  "vaultsKey (persist_projections ct n sa h w) = vaultsKey w"
  "recordFailureCalls (persist_projections ct n sa h w) = recordFailureCalls w"
  by (simp_all add: persist_projections_def)

lemma close_stores:
  "vaults (close_session w) = vaults w"
  "encryption (close_session w) = encryption w"
  "vaultsInitialized (close_session w) = False"
  "recordFailureCalls (close_session w) = recordFailureCalls w"
  by (simp_all add: close_session_def)

lemma create_world:
  "snd (createMasterPassword c e p w) =
     persist_projections
       (fst (encryptVaultKeyWithHashedPassword c e (fst (hashPassword c e p))))
       (snd (encryptVaultKeyWithHashedPassword c e (fst (hashPassword c e p))))
       (snd (hashPassword c e p))
       (fst (hashPassword c e p))
       (w\<lparr>encryptionInitialized := True, vaultsInitialized := True,
          vaultsKey := decryptVaultKey c
            (fst (encryptVaultKeyWithHashedPassword c e (fst (hashPassword c e p))))
            (snd (encryptVaultKeyWithHashedPassword c e (fst (hashPassword c e p))))
            (fst (hashPassword c e p))\<rparr>)"
  by (simp add: createMasterPassword_def Let_def case_prod_beta)


lemma updateMasterPassword_mismatch:
  assumes "vaultsInitialized w" "vaults w ''masterEncryption'' = Some me"
      and "me ''salt'' = Some sa" "me ''hashedPassword'' = Some h"
      and "\<not> constantTimeHashCompare c h (getDecryptionKey c sa cur)"
  shows "updateMasterPassword c e cur new w =
     (Inl (Error ''Invalid password''), rateLimitRecordFailure w)"
  using assms by (simp add: updateMasterPassword_def vaultsGet_def)

lemma updateMasterPassword_unwrap_fails:
  assumes "vaultsInitialized w" "vaults w ''masterEncryption'' = Some me"
      and "me ''salt'' = Some sa" "me ''hashedPassword'' = Some h"
      and "me ''ciphertext'' = Some ct" "me ''nonce'' = Some n"
      and "constantTimeHashCompare c h (getDecryptionKey c sa cur)"
      and "decryptVaultKey c ct n (getDecryptionKey c sa cur) = None"
  shows "updateMasterPassword c e cur new w =
     (Inl (Error ''Error decrypting vault key''), rateLimitRecordFailure w)"
  using assms by (simp add: updateMasterPassword_def vaultsGet_def Let_def)


lemma update_world:
  "snd (updateMasterPassword c e cur new w) = w
   \<or> snd (updateMasterPassword c e cur new w) = rateLimitRecordFailure w
   \<or> (\<exists>ct n sa h. snd (updateMasterPassword c e cur new w) = persist_projections ct n sa h w)"
proof -
  have "snd (updateMasterPassword c e cur new w) = w
     \<or> snd (updateMasterPassword c e cur new w) = rateLimitRecordFailure w
     \<or> snd (updateMasterPassword c e cur new w) =
         persist_projections
            (fst (encryptVaultWithKey c e (fst (hashPassword c e new))
               (the (decryptVaultKey c (the (the (vaultsGet w ''masterEncryption'') ''ciphertext''))
                  (the (the (vaultsGet w ''masterEncryption'') ''nonce''))
                  (getDecryptionKey c (the (the (vaultsGet w ''masterEncryption'') ''salt'')) cur)))))
            (snd (encryptVaultWithKey c e (fst (hashPassword c e new))
               (the (decryptVaultKey c (the (the (vaultsGet w ''masterEncryption'') ''ciphertext''))
                  (the (the (vaultsGet w ''masterEncryption'') ''nonce''))
                  (getDecryptionKey c (the (the (vaultsGet w ''masterEncryption'') ''salt'')) cur)))))
            (snd (hashPassword c e new)) (fst (hashPassword c e new)) w"
    unfolding updateMasterPassword_def
    by (simp add: Let_def case_prod_beta split: option.split)
  then show ?thesis by blast
qed

lemma initWithPassword_open:
  assumes "vaultsInitialized w" "vaults w ''masterEncryption'' = Some me"
      and "me ''salt'' = Some sa" "me ''hashedPassword'' = Some h"
  shows "initWithPassword c p w =
     (if constantTimeHashCompare c h (getDecryptionKey c sa p) then (Inr Success, w)
      else (Inl (Error ''Provided credentials do not match existing master encryption''),
            rateLimitRecordFailure w))"
  using assms by (simp add: initWithPassword_def vaultsGet_def)

lemma initWithPassword_closed:
  assumes "\<not> vaultsInitialized w" "encryption w ''masterPassword'' = Some mp"
      and "mp ''ciphertext'' = Some ct" "mp ''nonce'' = Some n" "mp ''salt'' = Some sa"
  shows "initWithPassword c p w =
     (case decryptVaultKey c ct n (getDecryptionKey c sa p) of
        None \<Rightarrow> (Inl (Error ''Error decrypting vault key''), rateLimitRecordFailure w)
      | Some key \<Rightarrow> (Inr Success, w\<lparr>vaultsInitialized := True, vaultsKey := Some key\<rparr>))"
  using assms by (simp add: initWithPassword_def)

lemma init_password_stores:
  "vaults (snd (initWithPassword c p w)) = vaults w
   \<and> encryption (snd (initWithPassword c p w)) = encryption w"
  unfolding initWithPassword_def rateLimitRecordFailure_def
  by (simp split: option.split)

lemma init_credentials_stores:
  "vaults (snd (initWithCredentials c args w)) = vaults w
   \<and> encryption (snd (initWithCredentials c args w)) = encryption w"
  unfolding initWithCredentials_def
  by (simp add: Let_def split: option.split)

lemma init_credentials_calls:
  "recordFailureCalls (snd (initWithCredentials c args w)) = recordFailureCalls w"
  unfolding initWithCredentials_def
  by (simp add: Let_def split: option.split)

lemma record_failure_stores:
  "vaults (rateLimitRecordFailure w) = vaults w"
  "encryption (rateLimitRecordFailure w) = encryption w"
  "vaultsInitialized (rateLimitRecordFailure w) = vaultsInitialized w"
  "recordFailureCalls (rateLimitRecordFailure w) = recordFailureCalls w + 1"
  by (simp_all add: rateLimitRecordFailure_def)

section \<open>The two projections\<close>

lemma in_step_cong:
  "vaults w' = vaults w \<Longrightarrow> encryption w' = encryption w \<Longrightarrow> in_step w' = in_step w"
  by (simp add: in_step_def)

lemma in_step_persist: "in_step (persist_projections ct n sa h w)"
  unfolding in_step_def
  by (rule disjI2, intro exI conjI) (rule persist_stores(1), rule persist_stores(2))

lemma in_step_agree:
  assumes "in_step w"
  shows "projections_agree w"
proof (cases "vaults w ''masterEncryption''")
  case None
  with assms have "encryption w ''masterPassword'' = None"
    by (simp add: in_step_def)
  with None show ?thesis by (simp add: projections_agree_def)
next
  case (Some me)
  with assms obtain ct n sa h where
    me: "vaults w ''masterEncryption'' = Some (masterEncryption_object ct n sa h)"
    and mp: "encryption w ''masterPassword'' = Some (masterPassword_object ct n sa)"
    unfolding in_step_def by auto
  show ?thesis
    unfolding projections_agree_def me mp
    by (simp add: obj_fields dom_masterPassword_object)
qed


lemma update_in_step:
  assumes "in_step w"
  shows "in_step (snd (updateMasterPassword c e cur new w))"
proof -
  consider "snd (updateMasterPassword c e cur new w) = w"
    | "snd (updateMasterPassword c e cur new w) = rateLimitRecordFailure w"
    | ct n sa h where
      "snd (updateMasterPassword c e cur new w) = persist_projections ct n sa h w"
    using update_world [of c e cur new w] by blast
  then show ?thesis
  proof cases
    case 1
    with assms show ?thesis by simp
  next
    case 2
    have "in_step (rateLimitRecordFailure w) = in_step w"
      by (intro in_step_cong) (simp_all add: record_failure_stores)
    with assms 2 show ?thesis by simp
  next
    case 3
    then show ?thesis by (simp only: in_step_persist)
  qed
qed

lemma reachable_in_step:
  assumes "reachable c w"
  shows "in_step w"
  using assms
proof (induction rule: reachable.induct)
  case start
  show ?case by (simp add: in_step_def new_world_def)
next
  case (create w e p)
  show ?case by (simp only: create_world in_step_persist)
next
  case (update w e cur new)
  from update.IH show ?case by (rule update_in_step)
next
  case (init_password w p)
  have "in_step (snd (initWithPassword c p w)) = in_step w"
    using init_password_stores [of c p w] by (intro in_step_cong) simp_all
  with init_password show ?case by simp
next
  case (init_credentials w args)
  have "in_step (snd (initWithCredentials c args w)) = in_step w"
    using init_credentials_stores [of c args w] by (intro in_step_cong) simp_all
  with init_credentials show ?case by simp
next
  case (close w)
  have "in_step (close_session w) = in_step w"
    by (intro in_step_cong) (simp_all add: close_stores)
  with close show ?case by simp
qed



text \<open>
  C9. In every state the manager can reach, by creations and rotations as by its other
  operations, the vault-store projection \<^verbatim>\<open>masterEncryption\<close> and the encryption-store
  projection \<^verbatim>\<open>masterPassword\<close> are both absent or are the two objects of one write:
  they hold the same ciphertext, nonce and salt, and the encryption-store object has
  these three fields only, without the verification hash. A creation writes both
  projections in one write, and a rotation writes both in one write or leaves the state
  as it was, but for the failure it records when it fails.
\<close>

theorem projections_in_step:
  assumes "reachable c w"
  shows "((vaults w ''masterEncryption'' = None \<and> encryption w ''masterPassword'' = None)
          \<or> (\<exists>ct n sa h.
                vaults w ''masterEncryption'' = Some (masterEncryption_object ct n sa h)
              \<and> encryption w ''masterPassword'' = Some (masterPassword_object ct n sa)))
       \<and> projections_agree w
       \<and> (\<exists>ct n sa h w'.
             snd (createMasterPassword c e p w) = persist_projections ct n sa h w'
           \<and> vaults w' = vaults w \<and> encryption w' = encryption w)
       \<and> (snd (updateMasterPassword c e' cur new w) = w
           \<or> snd (updateMasterPassword c e' cur new w) = rateLimitRecordFailure w
           \<or> (\<exists>ct n sa h.
                 snd (updateMasterPassword c e' cur new w) = persist_projections ct n sa h w))"
proof -
  have "in_step w" using assms by (rule reachable_in_step)
  then have state: "((vaults w ''masterEncryption'' = None \<and> encryption w ''masterPassword'' = None)
          \<or> (\<exists>ct n sa h.
                vaults w ''masterEncryption'' = Some (masterEncryption_object ct n sa h)
              \<and> encryption w ''masterPassword'' = Some (masterPassword_object ct n sa)))
       \<and> projections_agree w"
    using in_step_agree [of w] by (simp add: in_step_def)
  have created: "\<exists>ct n sa h w'.
             snd (createMasterPassword c e p w) = persist_projections ct n sa h w'
           \<and> vaults w' = vaults w \<and> encryption w' = encryption w"
    unfolding create_world by (intro exI conjI) (rule refl, simp_all)
  from state created update_world [of c e' cur new w] show ?thesis by blast
qed

theorem projections_in_step_witness:
  "reachable ideal_crypto
     (snd (updateMasterPassword ideal_crypto 2 (Atom ''first'') (Atom ''second'')
        (snd (createMasterPassword ideal_crypto 1 (Atom ''first'') new_world))))
   \<and> projections_agree
     (snd (updateMasterPassword ideal_crypto 2 (Atom ''first'') (Atom ''second'')
        (snd (createMasterPassword ideal_crypto 1 (Atom ''first'') new_world))))"
proof -
  have r: "reachable ideal_crypto
     (snd (updateMasterPassword ideal_crypto 2 (Atom ''first'') (Atom ''second'')
        (snd (createMasterPassword ideal_crypto 1 (Atom ''first'') new_world))))"
    by (intro reachable.update reachable.create reachable.start)
  from projections_in_step [OF r] r show ?thesis by (simp only: simp_thms)
qed

section \<open>Authentication failures and the rate limiter\<close>

lemma world_after_create_eq:
  "world_after_create =
     \<lparr>vaults = (\<lambda>k. None)(''masterEncryption'' \<mapsto>
         masterEncryption_object (Wrap (Kdf (Salt 1) (Atom ''correct'')) (Nonce 1) (Key 1))
           (Nonce 1) (Salt 1) (Kdf (Salt 1) (Atom ''correct''))),
      vaultsInitialized = True,
      vaultsKey = Some (Key 1),
      encryption = (\<lambda>k. None)(''masterPassword'' \<mapsto>
         masterPassword_object (Wrap (Kdf (Salt 1) (Atom ''correct'')) (Nonce 1) (Key 1))
           (Nonce 1) (Salt 1)),
      encryptionInitialized = True,
      recordFailureCalls = 0\<rparr>"
  unfolding world_after_create_def create_world
  by (simp add: ideal_crypto_def persist_projections_def new_world_def)

lemma world_after_create_fields:
  "vaultsInitialized world_after_create"
  "\<not> vaultsInitialized (close_session world_after_create)"
  "recordFailureCalls world_after_create = 0"
  "vaults world_after_create ''masterEncryption'' =
     Some (masterEncryption_object (Wrap (Kdf (Salt 1) (Atom ''correct'')) (Nonce 1) (Key 1))
       (Nonce 1) (Salt 1) (Kdf (Salt 1) (Atom ''correct'')))"
  "encryption world_after_create ''masterPassword'' =
     Some (masterPassword_object (Wrap (Kdf (Salt 1) (Atom ''correct'')) (Nonce 1) (Key 1))
       (Nonce 1) (Salt 1))"
  by (simp_all add: world_after_create_eq close_session_def)

text \<open>
  How often an operation records a failure: once when it fails with a message, the
  authentication failures, and not at all when it succeeds or finds no record to read.
\<close>

lemma init_password_calls:
  "recordFailureCalls (snd (initWithPassword c p w)) =
     recordFailureCalls w + (case fst (initWithPassword c p w) of Inl (Error m) \<Rightarrow> 1 | _ \<Rightarrow> 0)"
  unfolding initWithPassword_def rateLimitRecordFailure_def
  by (simp split: option.split)

lemma update_calls:
  "recordFailureCalls (snd (updateMasterPassword c e cur new w)) =
     recordFailureCalls w
       + (case fst (updateMasterPassword c e cur new w) of Inl (Error m) \<Rightarrow> 1 | _ \<Rightarrow> 0)"
  unfolding updateMasterPassword_def rateLimitRecordFailure_def
  by (simp add: Let_def case_prod_beta persist_projections_def split: option.split)

text \<open>
  C7. An authentication failure on a password-entry path fails with the message of its
  path and calls the rate limiter's \<^verbatim>\<open>recordFailure\<close> exactly once:
  \<^verbatim>\<open>initWithPassword\<close> with no vault open and a password under which the stored vault key
  does not unwrap, \<^verbatim>\<open>initWithPassword\<close> with a vault open and a password whose derived
  hash does not match the stored one, and \<^verbatim>\<open>updateMasterPassword\<close> with such a current
  password. Both operations record a failure exactly when they fail with a message, and
  none otherwise. \<^verbatim>\<open>initWithCredentials\<close> never calls the rate limiter, whether it
  succeeds or fails.
\<close>

theorem authentication_failure_bookkeeping:
  "(\<not> vaultsInitialized w \<and> encryption w ''masterPassword'' = Some mp
      \<and> mp ''ciphertext'' = Some ct \<and> mp ''nonce'' = Some n \<and> mp ''salt'' = Some sa
      \<and> decryptVaultKey c ct n (getDecryptionKey c sa p) = None
    \<longrightarrow> initWithPassword c p w =
          (Inl (Error ''Error decrypting vault key''),
           w\<lparr>recordFailureCalls := recordFailureCalls w + 1\<rparr>))
   \<and> (vaultsInitialized w \<and> vaults w ''masterEncryption'' = Some me
      \<and> me ''salt'' = Some sa' \<and> me ''hashedPassword'' = Some h
      \<and> \<not> constantTimeHashCompare c h (getDecryptionKey c sa' p)
    \<longrightarrow> initWithPassword c p w =
          (Inl (Error ''Provided credentials do not match existing master encryption''),
           w\<lparr>recordFailureCalls := recordFailureCalls w + 1\<rparr>)
        \<and> updateMasterPassword c e p new w =
          (Inl (Error ''Invalid password''),
           w\<lparr>recordFailureCalls := recordFailureCalls w + 1\<rparr>))
   \<and> recordFailureCalls (snd (initWithPassword c p w)) =
       recordFailureCalls w
         + (case fst (initWithPassword c p w) of Inl (Error m) \<Rightarrow> 1 | _ \<Rightarrow> 0)
   \<and> recordFailureCalls (snd (updateMasterPassword c e p new w)) =
       recordFailureCalls w
         + (case fst (updateMasterPassword c e p new w) of Inl (Error m) \<Rightarrow> 1 | _ \<Rightarrow> 0)
   \<and> recordFailureCalls (snd (initWithCredentials c args w)) = recordFailureCalls w"
proof -
  have closed: "initWithPassword c p w =
          (Inl (Error ''Error decrypting vault key''),
           w\<lparr>recordFailureCalls := recordFailureCalls w + 1\<rparr>)"
    if "\<not> vaultsInitialized w" "encryption w ''masterPassword'' = Some mp"
      "mp ''ciphertext'' = Some ct" "mp ''nonce'' = Some n" "mp ''salt'' = Some sa"
      "decryptVaultKey c ct n (getDecryptionKey c sa p) = None"
    using initWithPassword_closed [OF that(1-5), of c p] that(6)
    by (simp add: rateLimitRecordFailure_def)
  have "open": "initWithPassword c p w =
          (Inl (Error ''Provided credentials do not match existing master encryption''),
           w\<lparr>recordFailureCalls := recordFailureCalls w + 1\<rparr>)"
    if "vaultsInitialized w" "vaults w ''masterEncryption'' = Some me"
      "me ''salt'' = Some sa'" "me ''hashedPassword'' = Some h"
      "\<not> constantTimeHashCompare c h (getDecryptionKey c sa' p)"
    using initWithPassword_open [OF that(1-4), of c p] that(5)
    by (simp add: rateLimitRecordFailure_def)
  have upd: "updateMasterPassword c e p new w =
          (Inl (Error ''Invalid password''),
           w\<lparr>recordFailureCalls := recordFailureCalls w + 1\<rparr>)"
    if "vaultsInitialized w" "vaults w ''masterEncryption'' = Some me"
      "me ''salt'' = Some sa'" "me ''hashedPassword'' = Some h"
      "\<not> constantTimeHashCompare c h (getDecryptionKey c sa' p)"
    using updateMasterPassword_mismatch [OF that, of e new]
    by (simp add: rateLimitRecordFailure_def)
  show ?thesis
    using closed "open" upd init_password_calls [of c p w] update_calls [of c e p new w]
      init_credentials_calls [of c args w]
    by blast
qed

theorem authentication_failure_bookkeeping_witness:
  "initWithPassword ideal_crypto (Atom ''wrong'') (close_session world_after_create) =
     (Inl (Error ''Error decrypting vault key''),
      (close_session world_after_create)\<lparr>recordFailureCalls := 1\<rparr>)
   \<and> initWithPassword ideal_crypto (Atom ''wrong'') world_after_create =
     (Inl (Error ''Provided credentials do not match existing master encryption''),
      world_after_create\<lparr>recordFailureCalls := 1\<rparr>)
   \<and> updateMasterPassword ideal_crypto 2 (Atom ''wrong'') (Atom ''new'') world_after_create =
     (Inl (Error ''Invalid password''), world_after_create\<lparr>recordFailureCalls := 1\<rparr>)"
proof -
  have closed: "initWithPassword ideal_crypto (Atom ''wrong'') (close_session world_after_create) =
     (Inl (Error ''Error decrypting vault key''),
      (close_session world_after_create)\<lparr>recordFailureCalls := 1\<rparr>)"
    using authentication_failure_bookkeeping
      [where w = "close_session world_after_create" and c = ideal_crypto
        and p = "Atom ''wrong''"
        and mp = "masterPassword_object (Wrap (Kdf (Salt 1) (Atom ''correct'')) (Nonce 1) (Key 1))
          (Nonce 1) (Salt 1)"
        and ct = "Wrap (Kdf (Salt 1) (Atom ''correct'')) (Nonce 1) (Key 1)"
        and n = "Nonce 1" and sa = "Salt 1"]
    by (simp add: world_after_create_fields obj_fields close_stores)
      (simp add: ideal_crypto_def)
  have opened: "initWithPassword ideal_crypto (Atom ''wrong'') world_after_create =
     (Inl (Error ''Provided credentials do not match existing master encryption''),
      world_after_create\<lparr>recordFailureCalls := 1\<rparr>)
   \<and> updateMasterPassword ideal_crypto 2 (Atom ''wrong'') (Atom ''new'') world_after_create =
     (Inl (Error ''Invalid password''), world_after_create\<lparr>recordFailureCalls := 1\<rparr>)"
    using authentication_failure_bookkeeping
      [where w = world_after_create and c = ideal_crypto and p = "Atom ''wrong''"
        and me = "masterEncryption_object (Wrap (Kdf (Salt 1) (Atom ''correct'')) (Nonce 1) (Key 1))
          (Nonce 1) (Salt 1) (Kdf (Salt 1) (Atom ''correct''))"
        and sa' = "Salt 1" and h = "Kdf (Salt 1) (Atom ''correct'')"
        and e = 2 and new = "Atom ''new''"]
    by (simp add: world_after_create_fields obj_fields)
      (simp add: ideal_crypto_def)
  from closed opened show ?thesis by simp
qed

section \<open>The round trip\<close>

lemma contractsD:
  assumes "contracts c"
  shows "getDecryptionKey c (snd (hashPassword c e p)) p = fst (hashPassword c e p)"
    and "getDecryptionKey c sa p = getDecryptionKey c sa p' \<Longrightarrow> p = p'"
    and "constantTimeHashCompare c a b = (a = b)"
    and "decryptVaultKey c (fst (encryptVaultKeyWithHashedPassword c e h))
           (snd (encryptVaultKeyWithHashedPassword c e h)) h \<noteq> None"
    and "h' \<noteq> h \<Longrightarrow> decryptVaultKey c (fst (encryptVaultKeyWithHashedPassword c e h))
           (snd (encryptVaultKeyWithHashedPassword c e h)) h' = None"
    and "decryptVaultKey c (fst (encryptVaultWithKey c e h k))
           (snd (encryptVaultWithKey c e h k)) h = Some k"
    and "h' \<noteq> h \<Longrightarrow> decryptVaultKey c (fst (encryptVaultWithKey c e h k))
           (snd (encryptVaultWithKey c e h k)) h' = None"
proof -
  note all = assms [unfolded contracts_def]
  note c1 = all [THEN conjunct1]
  note r1 = all [THEN conjunct2]
  note c2 = r1 [THEN conjunct1]
  note r2 = r1 [THEN conjunct2]
  note c3 = r2 [THEN conjunct1]
  note r3 = r2 [THEN conjunct2]
  note c4 = r3 [THEN conjunct1]
  note r4 = r3 [THEN conjunct2]
  note c5 = r4 [THEN conjunct1]
  note r5 = r4 [THEN conjunct2]
  note c6 = r5 [THEN conjunct1]
  note r6 = r5 [THEN conjunct2]
  note c7 = r6 [THEN conjunct1]
  show "getDecryptionKey c (snd (hashPassword c e p)) p = fst (hashPassword c e p)"
    using c1 by blast
  show "getDecryptionKey c sa p = getDecryptionKey c sa p' \<Longrightarrow> p = p'"
    using c2 by blast
  show "constantTimeHashCompare c a b = (a = b)"
    using c3 by blast
  show "decryptVaultKey c (fst (encryptVaultKeyWithHashedPassword c e h))
           (snd (encryptVaultKeyWithHashedPassword c e h)) h \<noteq> None"
    using c4 by blast
  show "h' \<noteq> h \<Longrightarrow> decryptVaultKey c (fst (encryptVaultKeyWithHashedPassword c e h))
           (snd (encryptVaultKeyWithHashedPassword c e h)) h' = None"
    using c5 by blast
  show "decryptVaultKey c (fst (encryptVaultWithKey c e h k))
           (snd (encryptVaultWithKey c e h k)) h = Some k"
    using c6 by blast
  show "h' \<noteq> h \<Longrightarrow> decryptVaultKey c (fst (encryptVaultWithKey c e h k))
           (snd (encryptVaultWithKey c e h k)) h' = None"
    using c7 by blast
qed



lemma sealed_persist:
  assumes "getDecryptionKey c sa p = h" "decryptVaultKey c ct n h = Some key"
      and "\<And>h'. h' \<noteq> h \<Longrightarrow> decryptVaultKey c ct n h' = None"
  shows "sealed c (persist_projections ct n sa h w) p key"
  unfolding sealed_def
  using assms persist_stores(1,2) [of ct n sa h w] by (intro exI [of _ ct] exI [of _ n] exI [of _ sa] exI [of _ h]) simp

lemma create_sealed:
  assumes "contracts c"
  shows "\<exists>key. sealed c (snd (createMasterPassword c e p w)) p key"
proof -
  let ?h = "fst (hashPassword c e p)"
  let ?sa = "snd (hashPassword c e p)"
  let ?ct = "fst (encryptVaultKeyWithHashedPassword c e ?h)"
  let ?n = "snd (encryptVaultKeyWithHashedPassword c e ?h)"
  obtain key where key: "decryptVaultKey c ?ct ?n ?h = Some key"
    using contractsD(4) [OF assms, of e ?h] by auto
  have "sealed c (persist_projections ?ct ?n ?sa ?h
      (w\<lparr>encryptionInitialized := True, vaultsInitialized := True,
         vaultsKey := decryptVaultKey c ?ct ?n ?h\<rparr>)) p key"
    using contractsD(1) [OF assms, of e p] key contractsD(5) [OF assms, of _ ?h e]
    by (intro sealed_persist) simp_all
  then show ?thesis by (simp only: create_world) blast
qed






end
